theory Spec2Isabelle
  imports Main
begin

section \<open>The camera screen of with-barcode-scanner/App.tsx\<close>

text \<open>
  The component \<open>App\<close> keeps seven \<open>useState\<close> cells and renders one of three views from
  them. Each handler of the component is embedded as a function from the state before
  the call to the state after it; a handler that calls the camera behind \<open>ref\<close> also
  returns the calls it issues.

  A handler is created by a render and reads the state cells as the constants of that
  render; only a functional update (\<open>setMode((prev) => ...)\<close>) reads the cell as it is
  when the handler runs. For \<open>toggleMode\<close> and \<open>handleBarCodeScanned\<close>, whose guards read
  such a constant, the render is an argument of the embedding (\<open>toggleMode_closure\<close>,
  \<open>handleBarCodeScanned_closure\<close>): the first argument is the state the render saw, the
  last the state the handler meets. The plain names \<open>toggleMode\<close> and
  \<open>handleBarCodeScanned\<close> are the handlers of the render of the state they are applied
  to, that is, an event handled after the component has rendered again. \<open>recordVideo\<close>
  and the shutter read \<open>recording\<close> and \<open>mode\<close> in the same way; they are pressed by hand,
  one press per render.

  Strings are \<open>char list\<close>. The only string operations of the component are equality
  and \<open>startsWith\<close> against ASCII literals, which decide the same on UTF-16 code units
  and on bytes.
\<close>

subsection \<open>State\<close>

datatype CameraMode = Picture | Video

datatype CameraType = Back | Front

text \<open>\<open>BarcodeScanningResult\<close> of expo-camera; the component reads \<open>type\<close> and \<open>data\<close> only.\<close>

record BarcodeScanningResult =
  type :: string
  data :: string

text \<open>
  The \<open>useState\<close> cells, lines 19-25. \<open>None\<close> stands for \<open>null\<close> and for \<open>undefined\<close>
  (the component only ever tests these cells for truthiness).
\<close>

record app_state =
  uri :: "string option"
  mode :: CameraMode
  facing :: CameraType
  recording :: bool
  isBarcodeScanning :: bool
  barcodeData :: "BarcodeScanningResult option"
  scanningPaused :: bool

definition initial :: app_state where
  "initial = \<lparr>uri = None, mode = Picture, facing = Back, recording = False,
     isBarcodeScanning = False, barcodeData = None, scanningPaused = False\<rparr>"

subsection \<open>Handlers\<close>

text \<open>Lines 28-30: the effect that runs after the component has mounted.\<close>

definition mountEffect :: "app_state \<Rightarrow> app_state" where
  "mountEffect s = s\<lparr>isBarcodeScanning := True\<rparr>"

text \<open>
  What \<open>await\<close> gives back: the promise rejects (the rest of the handler is skipped), or
  it resolves with a value.
\<close>

datatype 'a awaited = Rejected | Resolved 'a

text \<open>The calls the handlers make on \<open>ref.current\<close>.\<close>

datatype request = TakePictureAsync | RecordAsync | StopRecording

text \<open>
  Lines 47-50. The argument is the outcome of \<open>await ref.current?.takePictureAsync()\<close>
  read through \<open>photo?.uri\<close>: \<open>Resolved None\<close> when no camera is attached or the photo is
  \<open>undefined\<close>, \<open>Resolved (Some u)\<close> for a photo \<open>{uri: u}\<close>.
\<close>

definition takePicture :: "string option awaited \<Rightarrow> app_state \<Rightarrow> app_state \<times> request list" where
  "takePicture photo s =
     (case photo of
        Rejected \<Rightarrow> (s, [TakePictureAsync])
      | Resolved u \<Rightarrow> (s\<lparr>uri := u\<rparr>, [TakePictureAsync]))"

text \<open>Lines 52-61. What \<open>recordAsync\<close> resolves to is only logged.\<close>

definition recordVideo :: "app_state \<Rightarrow> app_state \<times> request list" where
  "recordVideo s =
     (if recording s then (s\<lparr>recording := False\<rparr>, [StopRecording])
      else (s\<lparr>recording := True\<rparr>, [RecordAsync]))"

text \<open>
  Lines 63-70. The guard of line 66 reads \<open>isBarcodeScanning\<close> of the render \<open>c\<close> that
  created the handler; the mode is flipped by a functional update.
\<close>

definition toggleMode_closure :: "app_state \<Rightarrow> app_state \<Rightarrow> app_state" where
  "toggleMode_closure c s =
     (let s1 = s\<lparr>mode := (if mode s = Picture then Video else Picture)\<rparr>
      in if isBarcodeScanning c then s1\<lparr>isBarcodeScanning := False, barcodeData := None\<rparr>
         else s1)"

text \<open>The mode control pressed in the render of the state it meets.\<close>

definition toggleMode :: "app_state \<Rightarrow> app_state" where
  "toggleMode s = toggleMode_closure s s"

text \<open>Lines 72-74.\<close>

definition toggleFacing :: "app_state \<Rightarrow> app_state" where
  "toggleFacing s = s\<lparr>facing := (if facing s = Back then Front else Back)\<rparr>"

text \<open>Lines 76-80.\<close>

definition toggleBarcodeScanning :: "app_state \<Rightarrow> app_state" where
  "toggleBarcodeScanning s =
     s\<lparr>isBarcodeScanning := \<not> isBarcodeScanning s, barcodeData := None,
       scanningPaused := False\<rparr>"

text \<open>
  Lines 82-88. The guard of line 83 reads \<open>scanningPaused\<close> of the render \<open>c\<close> that
  created the handler, not the cell as the previous event left it.
\<close>

definition handleBarCodeScanned_closure ::
    "app_state \<Rightarrow> BarcodeScanningResult \<Rightarrow> app_state \<Rightarrow> app_state" where
  "handleBarCodeScanned_closure c scanningResult s =
     (if scanningPaused c then s
      else s\<lparr>barcodeData := Some scanningResult, scanningPaused := True\<rparr>)"

text \<open>A decode event handled by the render of the state it meets.\<close>

definition handleBarCodeScanned :: "BarcodeScanningResult \<Rightarrow> app_state \<Rightarrow> app_state" where
  "handleBarCodeScanned scanningResult s = handleBarCodeScanned_closure s scanningResult s"

text \<open>Lines 90-93.\<close>

definition scanAgain :: "app_state \<Rightarrow> app_state" where
  "scanAgain s = s\<lparr>barcodeData := None, scanningPaused := False\<rparr>"

text \<open>Line 103, the button "Take another picture".\<close>

definition takeAnotherPicture :: "app_state \<Rightarrow> app_state" where
  "takeAnotherPicture s = s\<lparr>uri := None\<rparr>"

text \<open>Line 156, the shutter: \<open>mode === "picture" ? takePicture : recordVideo\<close>.\<close>

definition shutterPress :: "string option awaited \<Rightarrow> app_state \<Rightarrow> app_state \<times> request list" where
  "shutterPress photo s = (if mode s = Picture then takePicture photo s else recordVideo s)"

subsection \<open>Rendering\<close>

text \<open>JavaScript truthiness of a \<open>string | null | undefined\<close>: the empty string is falsy.\<close>

fun truthy :: "string option \<Rightarrow> bool" where
  "truthy None = False"
| "truthy (Some u) = (u \<noteq> [])"

text \<open>\<open>String.prototype.startsWith\<close> with a search string and no position.\<close>

definition startsWith :: "string \<Rightarrow> string \<Rightarrow> bool" where
  "startsWith s p = (take (length p) s = p)"

text \<open>Lines 114-116: the relabelling of the barcode type.\<close>

definition labelFor :: "string \<Rightarrow> string \<Rightarrow> string" where
  "labelFor barcodeType formattedData =
     (if barcodeType = ''ean13''
         \<and> (startsWith formattedData ''978'' \<or> startsWith formattedData ''979'')
      then ''ISBN (EAN-13)'' else barcodeType)"

text \<open>
  Lines 108-129: the two text lines of the result view, "Type:" and "Data:".
  \<open>barcodeData?.data || ""\<close> is the empty string when there is no barcode.
\<close>

definition renderBarcodeResult :: "app_state \<Rightarrow> string \<times> string" where
  "renderBarcodeResult s =
     (let formattedData = (case barcodeData s of None \<Rightarrow> [] | Some b \<Rightarrow> data b);
          barcodeType = (case barcodeData s of None \<Rightarrow> [] | Some b \<Rightarrow> type b)
      in (labelFor barcodeType formattedData, formattedData))"

text \<open>
  Lines 131-201: what of the camera view depends on the state. \<open>onBarcodeScanned\<close> says
  whether the handler is bound (line 139), \<open>shutter\<close> whether the shutter button is
  there (line 155), \<open>scanOverlay\<close> whether the scanning guide is (line 189).
\<close>

record camera_elements =
  onBarcodeScanned :: bool
  shutter :: bool
  scanOverlay :: bool

definition renderCamera :: "app_state \<Rightarrow> camera_elements" where
  "renderCamera s =
     \<lparr>onBarcodeScanned = (isBarcodeScanning s \<and> \<not> scanningPaused s),
      shutter = (\<not> isBarcodeScanning s),
      scanOverlay = (isBarcodeScanning s \<and> barcodeData s = None)\<rparr>"

text \<open>
  Lines 32-45 and 203-207. The permission is \<open>null\<close> (\<open>None\<close>) or an object with the field
  \<open>granted\<close>.
\<close>

datatype view = Blank | PermissionPrompt | PictureView | BarcodeResultView | CameraView

definition App_render :: "bool option \<Rightarrow> app_state \<Rightarrow> view" where
  "App_render permission s =
     (case permission of
        None \<Rightarrow> Blank
      | Some granted \<Rightarrow>
          if \<not> granted then PermissionPrompt
          else if truthy (uri s) then PictureView
          else if barcodeData s \<noteq> None then BarcodeResultView
          else CameraView)"

subsection \<open>Runs\<close>

text \<open>
  The events the component reacts to: the mount effect, the four controls of the camera
  view, a decode event of the camera, and the buttons of the result view and of the
  photo preview. In a run the component renders after every event, so each event is
  handled by the render of the state it meets. The state change of \<open>takePicture\<close> happens when the photo arrives; the
  model applies it at the press, which makes no difference to the flags the
  properties below are about. React runs the mount effect once, after the first
  commit; a run may hold it anywhere, which only adds runs to those an invariant
  covers, and the concrete runs below start with it.
\<close>

datatype event =
    Mount
  | ToggleMode
  | ToggleFacing
  | ToggleBarcodeScanning
  | Shutter "string option awaited"
  | BarCodeScanned BarcodeScanningResult
  | ScanAgain
  | TakeAnotherPicture

fun dispatch :: "event \<Rightarrow> app_state \<Rightarrow> app_state \<times> request list" where
  "dispatch Mount s = (mountEffect s, [])"
| "dispatch ToggleMode s = (toggleMode s, [])"
| "dispatch ToggleFacing s = (toggleFacing s, [])"
| "dispatch ToggleBarcodeScanning s = (toggleBarcodeScanning s, [])"
| "dispatch (Shutter photo) s = shutterPress photo s"
| "dispatch (BarCodeScanned r) s = (handleBarCodeScanned r s, [])"
| "dispatch ScanAgain s = (scanAgain s, [])"
| "dispatch TakeAnotherPicture s = (takeAnotherPicture s, [])"

definition step :: "event \<Rightarrow> app_state \<Rightarrow> app_state" where
  "step e s = fst (dispatch e s)"

fun run :: "event list \<Rightarrow> app_state \<Rightarrow> app_state" where
  "run [] s = s"
| "run (e # es) s = run es (step e s)"

text \<open>The camera calls issued along a run, in order.\<close>

fun trace :: "event list \<Rightarrow> app_state \<Rightarrow> request list" where
  "trace [] s = []"
| "trace (e # es) s = snd (dispatch e s) @ trace es (step e s)"

text \<open>
  Which events may occur in which state is a parameter: \<open>admissible en es s\<close> holds when
  every event of \<open>es\<close> is allowed by \<open>en\<close> in the state it meets.
\<close>

fun admissible :: "(app_state \<Rightarrow> event \<Rightarrow> bool) \<Rightarrow> event list \<Rightarrow> app_state \<Rightarrow> bool" where
  "admissible en [] s = True"
| "admissible en (e # es) s = (en s e \<and> admissible en es (step e s))"

text \<open>
  Decode events only while the handler is bound (line 139), everything else at any
  time.
\<close>

definition decodeWhileBound :: "app_state \<Rightarrow> event \<Rightarrow> bool" where
  "decodeWhileBound s e =
     (case e of BarCodeScanned r \<Rightarrow> onBarcodeScanned (renderCamera s) | _ \<Rightarrow> True)"

text \<open>
  The mode control only where it is rendered, in the camera view (lines 148 and 205),
  everything else at any time.
\<close>

definition modeFromCameraView :: "app_state \<Rightarrow> event \<Rightarrow> bool" where
  "modeFromCameraView s e =
     (case e of ToggleMode \<Rightarrow> App_render (Some True) s = CameraView | _ \<Rightarrow> True)"

text \<open>The mode control not pressed during a recording, everything else at any time.\<close>

definition modeWhileIdle :: "app_state \<Rightarrow> event \<Rightarrow> bool" where
  "modeWhileIdle s e = (case e of ToggleMode \<Rightarrow> \<not> recording s | _ \<Rightarrow> True)"

text \<open>
  What the rendered tree offers once the permission is granted: the four controls and
  the decode events in the camera view (the shutter only while scanning is off, decode
  events only while the handler is bound), "Scan Another Barcode" in the result view,
  "Take another picture" in the photo preview.
\<close>

definition offered :: "app_state \<Rightarrow> event \<Rightarrow> bool" where
  "offered s e =
     (case e of
        Mount \<Rightarrow> True
      | ToggleMode \<Rightarrow> App_render (Some True) s = CameraView
      | ToggleFacing \<Rightarrow> App_render (Some True) s = CameraView
      | ToggleBarcodeScanning \<Rightarrow> App_render (Some True) s = CameraView
      | Shutter photo \<Rightarrow> App_render (Some True) s = CameraView \<and> shutter (renderCamera s)
      | BarCodeScanned r \<Rightarrow>
          App_render (Some True) s = CameraView \<and> onBarcodeScanned (renderCamera s)
      | ScanAgain \<Rightarrow> App_render (Some True) s = BarcodeResultView
      | TakeAnotherPicture \<Rightarrow> App_render (Some True) s = PictureView)"

section \<open>Properties\<close>

subsection \<open>Runs and invariants\<close>

lemma run_invariant:
  assumes "I s"
    and "\<And>t e. I t \<Longrightarrow> en t e \<Longrightarrow> I (step e t)"
    and "admissible en es s"
  shows "I (run es s)"
  using assms(1,3)
proof (induction es arbitrary: s)
  case Nil
  then show ?case by simp
next
  case (Cons e es)
  from Cons.prems have "I (step e s)" and "admissible en es (step e s)"
    by (simp_all add: assms(2))
  then show ?case using Cons.IH by simp
qed

subsection \<open>Evaluating the handlers\<close>

lemmas handler_defs = mountEffect_def takePicture_def recordVideo_def toggleMode_def
  toggleMode_closure_def toggleFacing_def toggleBarcodeScanning_def handleBarCodeScanned_def
  handleBarCodeScanned_closure_def scanAgain_def takeAnotherPicture_def shutterPress_def

lemma step_simps:
  "step Mount s = mountEffect s"
  "step ToggleMode s = toggleMode s"
  "step ToggleFacing s = toggleFacing s"
  "step ToggleBarcodeScanning s = toggleBarcodeScanning s"
  "step (Shutter photo) s = fst (shutterPress photo s)"
  "step (BarCodeScanned r) s = handleBarCodeScanned r s"
  "step ScanAgain s = scanAgain s"
  "step TakeAnotherPicture s = takeAnotherPicture s"
  by (simp_all add: step_def)

text \<open>\<open>startsWith\<close> is the prefix test.\<close>

lemma startsWith_iff: "startsWith s p \<longleftrightarrow> (\<exists>r. s = p @ r)"
  unfolding startsWith_def
  by (metis append_eq_conv_conj append_take_drop_id)

subsection \<open>A barcode is only held while scanning is on\<close>

text \<open>
  When decode events arrive only while the handler is bound, every step keeps
  "no barcode, or scanning is on": \<open>toggleMode\<close> clears the barcode whenever it turns
  scanning off, and the handlers that leave scanning alone never set a barcode.
\<close>

lemma scanning_step:
  assumes "barcodeData s = None \<or> isBarcodeScanning s" and "decodeWhileBound s e"
  shows "barcodeData (step e s) = None \<or> isBarcodeScanning (step e s)"
  using assms
  by (cases e) (auto simp: step_simps handler_defs decodeWhileBound_def renderCamera_def Let_def
      split: awaited.splits)

lemma scanning_run:
  assumes "admissible decodeWhileBound es initial"
  shows "barcodeData (run es initial) = None \<or> isBarcodeScanning (run es initial)"
proof (rule run_invariant [where en = decodeWhileBound and s = initial])
  show "barcodeData initial = None \<or> isBarcodeScanning initial"
    by (simp add: initial_def)
  show "admissible decodeWhileBound es initial"
    by (rule assms)
  show "barcodeData (step e t) = None \<or> isBarcodeScanning (step e t)"
    if "barcodeData t = None \<or> isBarcodeScanning t" and "decodeWhileBound t e" for t e
    using that by (rule scanning_step)
qed

lemma toggleMode_funpow:
  assumes "barcodeData s = None \<or> isBarcodeScanning s"
  shows "\<not> isBarcodeScanning ((toggleMode ^^ Suc n) s)
    \<and> barcodeData ((toggleMode ^^ Suc n) s) = None"
  using assms
  by (induction n) (auto simp: toggleMode_def toggleMode_closure_def Let_def)

subsection \<open>Toggling the capture mode\<close>

text \<open>What the rendered tree offers is allowed by the weaker conditions on runs.\<close>

lemma admissible_mono:
  assumes "\<And>t e. en t e \<Longrightarrow> en' t e" and "admissible en es s"
  shows "admissible en' es s"
  using assms(2) by (induction es arbitrary: s) (simp_all add: assms(1))

lemma offered_decodeWhileBound: "offered s e \<Longrightarrow> decodeWhileBound s e"
  by (cases e) (simp_all add: offered_def decodeWhileBound_def)

text \<open>
  C1. After every call of \<open>toggleMode\<close> scanning is off, in every state. In every state
  reached from the initial state by operations in any order, with decode events
  delivered only while the handler is bound (line 139), and after any number of calls
  of \<open>toggleMode\<close> in a row from there, scanning is off and no barcode is held, whether
  scanning was on before the call or not.
\<close>

theorem toggleMode_turns_scanning_off:
  "\<not> isBarcodeScanning (toggleMode s)
   \<and> (admissible decodeWhileBound es initial \<longrightarrow>
        \<not> isBarcodeScanning ((toggleMode ^^ Suc n) (run es initial))
        \<and> barcodeData ((toggleMode ^^ Suc n) (run es initial)) = None)"
proof (intro conjI impI)
  show "\<not> isBarcodeScanning (toggleMode s)"
    by (simp add: toggleMode_def toggleMode_closure_def Let_def)
next
  assume a: "admissible decodeWhileBound es initial"
  from toggleMode_funpow [OF scanning_run [OF a], of n]
  show "\<not> isBarcodeScanning ((toggleMode ^^ Suc n) (run es initial))"
    and "barcodeData ((toggleMode ^^ Suc n) (run es initial)) = None"
    by blast+
qed

text \<open>
  The theorem at a run that scans a barcode after mounting: the run is admissible,
  scanning is on and a barcode is held at its end, and of two mode toggles in a row
  the first (scanning on before it) and the second (scanning off before it) both leave
  scanning off and no barcode.
\<close>

theorem toggleMode_turns_scanning_off_witness:
  "admissible decodeWhileBound [Mount, BarCodeScanned \<lparr>type = ''qr'', data = ''abc''\<rparr>] initial
   \<and> barcodeData (run [Mount, BarCodeScanned \<lparr>type = ''qr'', data = ''abc''\<rparr>] initial) \<noteq> None
   \<and> barcodeData ((toggleMode ^^ Suc 0)
        (run [Mount, BarCodeScanned \<lparr>type = ''qr'', data = ''abc''\<rparr>] initial)) = None
   \<and> barcodeData ((toggleMode ^^ Suc 1)
        (run [Mount, BarCodeScanned \<lparr>type = ''qr'', data = ''abc''\<rparr>] initial)) = None"
proof -
  have h: "admissible decodeWhileBound
      [Mount, BarCodeScanned \<lparr>type = ''qr'', data = ''abc''\<rparr>] initial"
    by (simp add: decodeWhileBound_def renderCamera_def step_simps handler_defs initial_def)
  have p: "barcodeData (run [Mount, BarCodeScanned \<lparr>type = ''qr'', data = ''abc''\<rparr>] initial)
      \<noteq> None"
    by (simp add: step_simps handler_defs initial_def)
  from toggleMode_turns_scanning_off
    [of initial "[Mount, BarCodeScanned \<lparr>type = ''qr'', data = ''abc''\<rparr>]" 0]
    toggleMode_turns_scanning_off
    [of initial "[Mount, BarCodeScanned \<lparr>type = ''qr'', data = ''abc''\<rparr>]" 1] h p
  show ?thesis by blast
qed

subsection \<open>A paused scan and its barcode\<close>

lemma paused_step:
  assumes "\<not> scanningPaused s \<or> barcodeData s \<noteq> None" and "modeFromCameraView s e"
  shows "\<not> scanningPaused (step e s) \<or> barcodeData (step e s) \<noteq> None"
  using assms
  by (cases e) (auto simp: step_simps handler_defs modeFromCameraView_def App_render_def Let_def
      split: awaited.splits if_splits)

text \<open>
  While the component renders after every event, a paused scan holds a barcode: the
  mode control is then pressed only in the camera view, where no barcode is held.
\<close>

lemma paused_holds_barcode_between_renders:
  assumes "admissible modeFromCameraView es initial"
    and "scanningPaused (run es initial)"
  shows "barcodeData (run es initial) \<noteq> None"
proof -
  have "\<not> scanningPaused (run es initial) \<or> barcodeData (run es initial) \<noteq> None"
  proof (rule run_invariant [where en = modeFromCameraView and s = initial])
    show "\<not> scanningPaused initial \<or> barcodeData initial \<noteq> None"
      by (simp add: initial_def)
    show "admissible modeFromCameraView es initial"
      by (rule assms(1))
    show "\<not> scanningPaused (step e t) \<or> barcodeData (step e t) \<noteq> None"
      if "\<not> scanningPaused t \<or> barcodeData t \<noteq> None" and "modeFromCameraView t e" for t e
      using that by (rule paused_step)
  qed
  with assms(2) show ?thesis by blast
qed

text \<open>
  \<open>toggleMode\<close> never touches \<open>scanningPaused\<close>, whichever render it belongs to, while
  the two other handlers that clear the barcode reset it.
\<close>

lemma toggleMode_keeps_scanningPaused:
  "scanningPaused (toggleMode_closure c s) = scanningPaused s"
  by (simp add: toggleMode_closure_def Let_def)

lemma siblings_reset_scanningPaused:
  "\<not> scanningPaused (toggleBarcodeScanning s) \<and> \<not> scanningPaused (scanAgain s)"
  by (simp add: toggleBarcodeScanning_def scanAgain_def)

text \<open>
  C2. The invariant "a paused scan holds a barcode" is broken by the code. In the
  camera view rendered after mounting, the decode handler and the mode control are
  both there. A decode event and a press of the mode control handled by that one
  render: the decode handler stores the barcode and pauses the scan, and \<open>toggleMode\<close>,
  whose guard sees scanning on, clears the barcode and leaves the scan paused.
\<close>

theorem paused_without_barcode_in_one_render:
  "offered (mountEffect initial) (BarCodeScanned \<lparr>type = ''qr'', data = ''abc''\<rparr>)
   \<and> offered (mountEffect initial) ToggleMode
   \<and> scanningPaused
       (toggleMode_closure (mountEffect initial)
         (handleBarCodeScanned_closure (mountEffect initial) \<lparr>type = ''qr'', data = ''abc''\<rparr>
           (mountEffect initial)))
   \<and> barcodeData
       (toggleMode_closure (mountEffect initial)
         (handleBarCodeScanned_closure (mountEffect initial) \<lparr>type = ''qr'', data = ''abc''\<rparr>
           (mountEffect initial)))
      = None"
  by (simp add: offered_def App_render_def renderCamera_def toggleMode_closure_def
      handleBarCodeScanned_closure_def mountEffect_def initial_def)

subsection \<open>Recording and the capture mode\<close>

lemma recording_step:
  assumes "\<not> recording s \<or> mode s = Video" and "modeWhileIdle s e"
  shows "\<not> recording (step e s) \<or> mode (step e s) = Video"
  using assms
  by (cases e; cases "mode s") (auto simp: step_simps handler_defs modeWhileIdle_def Let_def
      split: awaited.splits if_splits)

text \<open>
  C3 (as amended). \<open>toggleMode\<close> never changes \<open>recording\<close>. In every state reached from
  the initial state by operations in any order, with the mode control not pressed
  during a recording, \<open>recording\<close> implies that the mode is video.
\<close>

theorem recording_in_video_mode:
  "recording (toggleMode s) = recording s
   \<and> (admissible modeWhileIdle es initial \<and> recording (run es initial)
        \<longrightarrow> mode (run es initial) = Video)"
proof (intro conjI impI)
  show "recording (toggleMode s) = recording s"
    by (simp add: toggleMode_def toggleMode_closure_def Let_def)
next
  assume a: "admissible modeWhileIdle es initial \<and> recording (run es initial)"
  have "\<not> recording (run es initial) \<or> mode (run es initial) = Video"
  proof (rule run_invariant [where en = modeWhileIdle and s = initial])
    show "\<not> recording initial \<or> mode initial = Video"
      by (simp add: initial_def)
    show "admissible modeWhileIdle es initial"
      using a by blast
    show "\<not> recording (step e t) \<or> mode (step e t) = Video"
      if "\<not> recording t \<or> mode t = Video" and "modeWhileIdle t e" for t e
      using that by (rule recording_step)
  qed
  with a show "mode (run es initial) = Video" by blast
qed

text \<open>Scanning off, video mode, one press of the shutter: a recording in video mode.\<close>

theorem recording_in_video_mode_witness:
  "admissible modeWhileIdle
     [Mount, ToggleBarcodeScanning, ToggleMode, Shutter (Resolved None)] initial
   \<and> recording (run [Mount, ToggleBarcodeScanning, ToggleMode, Shutter (Resolved None)] initial)
   \<and> mode (run [Mount, ToggleBarcodeScanning, ToggleMode, Shutter (Resolved None)] initial)
      = Video"
proof -
  have h: "admissible modeWhileIdle
      [Mount, ToggleBarcodeScanning, ToggleMode, Shutter (Resolved None)] initial"
    by (simp add: modeWhileIdle_def step_simps handler_defs initial_def)
  have p: "recording
      (run [Mount, ToggleBarcodeScanning, ToggleMode, Shutter (Resolved None)] initial)"
    by (simp add: step_simps handler_defs initial_def)
  from h p recording_in_video_mode
    [of initial "[Mount, ToggleBarcodeScanning, ToggleMode, Shutter (Resolved None)]"]
  show ?thesis by blast
qed

text \<open>
  The claim as it was stated fails on a run that only uses what the rendered tree
  offers: with scanning off and a recording started in video mode, the mode control is
  still there, and pressing it gives picture mode with \<open>recording\<close> still set.
\<close>

theorem recording_in_picture_mode_counterexample:
  "admissible offered
     [Mount, ToggleBarcodeScanning, ToggleMode, Shutter (Resolved None), ToggleMode] initial
   \<and> recording (run [Mount, ToggleBarcodeScanning, ToggleMode, Shutter (Resolved None),
        ToggleMode] initial)
   \<and> mode (run [Mount, ToggleBarcodeScanning, ToggleMode, Shutter (Resolved None),
        ToggleMode] initial) = Picture"
  by (simp add: offered_def App_render_def renderCamera_def step_simps handler_defs initial_def)

subsection \<open>Which view is rendered\<close>

text \<open>
  C4 (as amended). With the permission granted, the photo preview is rendered when a
  captured photo's uri is held and is not the empty string (line 205 tests the uri for
  truthiness), also when a barcode is held at the same time; otherwise the barcode
  result is rendered when a barcode is held; otherwise the camera view. So pressing the
  shutter in picture mode, with a camera that returns a photo with a non-empty uri,
  stores that uri and leads to the photo preview.
\<close>

theorem render_priority:
  "App_render (Some True) s =
     (if uri s \<noteq> None \<and> uri s \<noteq> Some [] then PictureView
      else if barcodeData s \<noteq> None then BarcodeResultView
      else CameraView)
   \<and> (mode s = Picture \<and> u \<noteq> [] \<longrightarrow>
        uri (step (Shutter (Resolved (Some u))) s) = Some u
        \<and> App_render (Some True) (step (Shutter (Resolved (Some u))) s) = PictureView)"
proof (intro conjI impI)
  show "App_render (Some True) s =
     (if uri s \<noteq> None \<and> uri s \<noteq> Some [] then PictureView
      else if barcodeData s \<noteq> None then BarcodeResultView
      else CameraView)"
    by (cases "uri s") (simp_all add: App_render_def)
next
  assume a: "mode s = Picture \<and> u \<noteq> []"
  then show "uri (step (Shutter (Resolved (Some u))) s) = Some u"
    by (simp add: step_simps shutterPress_def takePicture_def)
  from a show "App_render (Some True) (step (Shutter (Resolved (Some u))) s) = PictureView"
    by (simp add: step_simps shutterPress_def takePicture_def App_render_def)
qed

text \<open>A photo with the uri "x" taken while a barcode is held: the preview wins.\<close>

theorem render_priority_witness:
  "mode (handleBarCodeScanned \<lparr>type = ''qr'', data = ''abc''\<rparr> initial) = Picture
   \<and> barcodeData (step (Shutter (Resolved (Some ''x'')))
        (handleBarCodeScanned \<lparr>type = ''qr'', data = ''abc''\<rparr> initial)) \<noteq> None
   \<and> uri (step (Shutter (Resolved (Some ''x'')))
        (handleBarCodeScanned \<lparr>type = ''qr'', data = ''abc''\<rparr> initial)) = Some ''x''
   \<and> App_render (Some True) (step (Shutter (Resolved (Some ''x'')))
        (handleBarCodeScanned \<lparr>type = ''qr'', data = ''abc''\<rparr> initial)) = PictureView"
proof -
  have h: "mode (handleBarCodeScanned \<lparr>type = ''qr'', data = ''abc''\<rparr> initial) = Picture
      \<and> ''x'' \<noteq> []"
    by (simp add: handler_defs initial_def)
  have p: "barcodeData (step (Shutter (Resolved (Some ''x'')))
        (handleBarCodeScanned \<lparr>type = ''qr'', data = ''abc''\<rparr> initial)) \<noteq> None"
    by (simp add: step_simps handler_defs initial_def)
  from h p render_priority
    [of "handleBarCodeScanned \<lparr>type = ''qr'', data = ''abc''\<rparr> initial" "''x''"]
  show ?thesis by blast
qed

text \<open>
  A photo whose uri is the empty string is stored, and the camera view is rendered all
  the same.
\<close>

theorem empty_uri_counterexample:
  "uri (step (Shutter (Resolved (Some []))) initial) = Some []
   \<and> App_render (Some True) (step (Shutter (Resolved (Some []))) initial) = CameraView"
  by (simp add: App_render_def step_simps handler_defs initial_def)

subsection \<open>Decode events\<close>

text \<open>
  Once a decode event has been handled and the component has rendered again, the
  handler is no longer bound (line 139): a second event is not delivered at all.
\<close>

lemma handler_unbound_after_scan:
  "\<not> onBarcodeScanned (renderCamera (handleBarCodeScanned r s))"
  by (simp add: renderCamera_def handleBarCodeScanned_def handleBarCodeScanned_closure_def)

text \<open>
  Two decode events handled by the handler of one render that binds it: the guard of
  line 83 reads that render's \<open>scanningPaused\<close>, which is false for both, so the second
  result replaces the first.
\<close>

lemma two_scans_one_render:
  assumes "onBarcodeScanned (renderCamera c)"
  shows "handleBarCodeScanned_closure c r2 (handleBarCodeScanned_closure c r1 s)
    = s\<lparr>barcodeData := Some r2, scanningPaused := True\<rparr>"
  using assms by (simp add: renderCamera_def handleBarCodeScanned_closure_def)

text \<open>
  C5. Only the first of two decode events in a row should be kept. In the camera view
  rendered after mounting the handler is bound; a QR code and then an EAN-13 code
  reported to that handler: the first call stores the QR code, and the second call is
  not ignored but stores the EAN-13 code.
\<close>

theorem second_scan_overwrites_in_one_render:
  "App_render (Some True) (mountEffect initial) = CameraView
   \<and> onBarcodeScanned (renderCamera (mountEffect initial))
   \<and> barcodeData
       (handleBarCodeScanned_closure (mountEffect initial) \<lparr>type = ''qr'', data = ''abc''\<rparr>
         (mountEffect initial))
      = Some \<lparr>type = ''qr'', data = ''abc''\<rparr>
   \<and> barcodeData
       (handleBarCodeScanned_closure (mountEffect initial)
         \<lparr>type = ''ean13'', data = ''9781234567897''\<rparr>
         (handleBarCodeScanned_closure (mountEffect initial) \<lparr>type = ''qr'', data = ''abc''\<rparr>
           (mountEffect initial)))
      = Some \<lparr>type = ''ean13'', data = ''9781234567897''\<rparr>"
  by (simp add: App_render_def renderCamera_def handleBarCodeScanned_closure_def
      mountEffect_def initial_def)

text \<open>
  C8. \<open>scanAgain\<close> clears the barcode and the pause in every state, and a decode event
  handled right after it is accepted: its result is the barcode held.
\<close>

theorem scanAgain_accepts_next:
  "barcodeData (scanAgain s) = None
   \<and> \<not> scanningPaused (scanAgain s)
   \<and> barcodeData (handleBarCodeScanned r (scanAgain s)) = Some r
   \<and> scanningPaused (handleBarCodeScanned r (scanAgain s))"
  by (simp add: scanAgain_def handleBarCodeScanned_def handleBarCodeScanned_closure_def)

text \<open>
  C10. In every state reached from the initial state by operations in any order, with
  decode events delivered only while the handler is bound (scanning on and not
  paused), a barcode is held only while scanning is on.
\<close>

theorem barcode_implies_scanning:
  assumes "admissible decodeWhileBound es initial"
    and "barcodeData (run es initial) \<noteq> None"
  shows "isBarcodeScanning (run es initial)"
  using scanning_run [OF assms(1)] assms(2) by blast

text \<open>An ISBN scanned after mounting, then the camera flipped.\<close>

theorem barcode_implies_scanning_witness:
  "admissible decodeWhileBound
     [Mount, BarCodeScanned \<lparr>type = ''ean13'', data = ''9781234567897''\<rparr>, ToggleFacing] initial
   \<and> barcodeData (run [Mount,
        BarCodeScanned \<lparr>type = ''ean13'', data = ''9781234567897''\<rparr>, ToggleFacing] initial)
      \<noteq> None
   \<and> isBarcodeScanning (run [Mount,
        BarCodeScanned \<lparr>type = ''ean13'', data = ''9781234567897''\<rparr>, ToggleFacing] initial)"
proof -
  have h: "admissible decodeWhileBound
      [Mount, BarCodeScanned \<lparr>type = ''ean13'', data = ''9781234567897''\<rparr>, ToggleFacing] initial"
    by (simp add: decodeWhileBound_def renderCamera_def step_simps handler_defs initial_def)
  have p: "barcodeData (run [Mount,
      BarCodeScanned \<lparr>type = ''ean13'', data = ''9781234567897''\<rparr>, ToggleFacing] initial) \<noteq> None"
    by (simp add: step_simps handler_defs initial_def)
  from h p barcode_implies_scanning [OF h p] show ?thesis by blast
qed

subsection \<open>The label of a barcode type\<close>

text \<open>The result view shows the relabelled type and the data of the barcode held.\<close>

lemma renderBarcodeResult_labelFor:
  "barcodeData s = Some b \<Longrightarrow> renderBarcodeResult s = (labelFor (type b) (data b), data b)"
  by (simp add: renderBarcodeResult_def Let_def)

text \<open>
  C6. For the type "ean13" the label is "ISBN (EAN-13)" exactly when the data starts
  with "978" or with "979"; for every other pair of type and data the label is the type
  itself. The three examples of the specification evaluate as it says.
\<close>

theorem labelFor_isbn:
  "(labelFor ''ean13'' d = ''ISBN (EAN-13)'') = ((\<exists>r. d = ''978'' @ r) \<or> (\<exists>r. d = ''979'' @ r))
   \<and> (\<not> (t = ''ean13'' \<and> ((\<exists>r. d = ''978'' @ r) \<or> (\<exists>r. d = ''979'' @ r)))
        \<longrightarrow> labelFor t d = t)
   \<and> labelFor ''ean13'' ''9781234567897'' = ''ISBN (EAN-13)''
   \<and> labelFor ''ean13'' ''1234567890123'' = ''ean13''
   \<and> labelFor ''qr'' ''9780000000000'' = ''qr''"
proof (intro conjI impI)
  show "(labelFor ''ean13'' d = ''ISBN (EAN-13)'')
      = ((\<exists>r. d = ''978'' @ r) \<or> (\<exists>r. d = ''979'' @ r))"
    by (simp add: labelFor_def startsWith_iff)
  show "labelFor t d = t"
    if "\<not> (t = ''ean13'' \<and> ((\<exists>r. d = ''978'' @ r) \<or> (\<exists>r. d = ''979'' @ r)))"
    using that by (simp add: labelFor_def startsWith_iff)
  show "labelFor ''ean13'' ''9781234567897'' = ''ISBN (EAN-13)''"
    by (simp add: labelFor_def startsWith_def)
  show "labelFor ''ean13'' ''1234567890123'' = ''ean13''"
    by (simp add: labelFor_def startsWith_def)
  show "labelFor ''qr'' ''9780000000000'' = ''qr''"
    by (simp add: labelFor_def startsWith_def)
qed

text \<open>A QR code whose data starts with "978" keeps its type.\<close>

theorem labelFor_isbn_witness:
  "\<not> (''qr'' = ''ean13''
      \<and> ((\<exists>r. ''9780000000000'' = ''978'' @ r) \<or> (\<exists>r. ''9780000000000'' = ''979'' @ r)))
   \<and> labelFor ''qr'' ''9780000000000'' = ''qr''"
proof -
  have h: "\<not> (''qr'' = ''ean13''
      \<and> ((\<exists>r. ''9780000000000'' = ''978'' @ r) \<or> (\<exists>r. ''9780000000000'' = ''979'' @ r)))"
    by simp
  from h labelFor_isbn [of "''9780000000000''" "''qr''"] show ?thesis by blast
qed

subsection \<open>The shutter in video mode\<close>

lemma shutterPress_video:
  assumes "mode s = Video"
  shows "shutterPress photo s =
    (s\<lparr>recording := \<not> recording s\<rparr>, [if recording s then StopRecording else RecordAsync])"
  using assms by (simp add: shutterPress_def recordVideo_def)

lemma upt_0_Suc_map: "map f [0..<Suc n] = f 0 # map (\<lambda>i. f (Suc i)) [0..<n]"
proof -
  have "[0..<Suc n] = 0 # map Suc [0..<n]"
    by (simp add: upt_conv_Cons map_Suc_upt del: upt_Suc)
  then show ?thesis by (simp add: comp_def del: upt_Suc)
qed

text \<open>
  A row of shutter presses in video mode, by induction on the row: the press numbered
  \<open>i\<close> (from 0) meets \<open>recording\<close> as it was at the start when \<open>i\<close> is even and flipped
  when \<open>i\<close> is odd.
\<close>

lemma shutter_presses_video:
  assumes "mode s = Video"
  shows "mode (run (map Shutter ps) s) = Video
    \<and> recording (run (map Shutter ps) s) = (if even (length ps) then recording s else \<not> recording s)
    \<and> trace (map Shutter ps) s =
        map (\<lambda>i. if (if even i then recording s else \<not> recording s)
                  then StopRecording else RecordAsync) [0..<length ps]"
  using assms
proof (induction ps arbitrary: s)
  case Nil
  then show ?case by simp
next
  case (Cons p ps)
  let ?t = "s\<lparr>recording := \<not> recording s\<rparr>"
  have st: "step (Shutter p) s = ?t" and rq: "snd (dispatch (Shutter p) s) =
      [if recording s then StopRecording else RecordAsync]"
    using Cons.prems by (simp_all add: step_def shutterPress_video)
  have m: "mode ?t = Video" using Cons.prems by simp
  note ih = Cons.IH [OF m]
  have "map (\<lambda>i. if (if even i then recording s else \<not> recording s)
                  then StopRecording else RecordAsync) [0..<length (p # ps)]
      = (if recording s then StopRecording else RecordAsync)
        # map (\<lambda>i. if (if even i then recording ?t else \<not> recording ?t)
                  then StopRecording else RecordAsync) [0..<length ps]"
    by (simp add: upt_0_Suc_map del: upt_Suc)
  with ih st rq show ?case by simp
qed

text \<open>
  C7. In video mode one press of the shutter flips \<open>recording\<close> and nothing else, and
  asks the camera to start recording when \<open>recording\<close> was off and to stop when it was
  on. Over any row of presses the mode stays video, \<open>recording\<close> is flipped once per
  press, and the requests alternate between start and stop.
\<close>

theorem shutter_toggles_recording:
  assumes "mode s = Video"
  shows "step (Shutter p) s = s\<lparr>recording := \<not> recording s\<rparr>
    \<and> snd (dispatch (Shutter p) s) = [if recording s then StopRecording else RecordAsync]
    \<and> mode (run (map Shutter ps) s) = Video
    \<and> recording (run (map Shutter ps) s) = (if even (length ps) then recording s else \<not> recording s)
    \<and> trace (map Shutter ps) s =
        map (\<lambda>i. if (if even i then recording s else \<not> recording s)
                  then StopRecording else RecordAsync) [0..<length ps]"
  using shutter_presses_video [OF assms, of ps] assms
  by (simp add: step_def shutterPress_video)

text \<open>Three presses after switching to video: start, stop, start, and a recording on.\<close>

theorem shutter_toggles_recording_witness:
  "mode (toggleMode initial) = Video
   \<and> recording (run (map Shutter [Resolved None, Resolved None, Resolved None])
        (toggleMode initial))
   \<and> trace (map Shutter [Resolved None, Resolved None, Resolved None]) (toggleMode initial)
      = [RecordAsync, StopRecording, RecordAsync]"
proof -
  let ?ps = "[Resolved None, Resolved None, Resolved (None :: string option)]"
  let ?s = "toggleMode initial"
  have h: "mode ?s = Video"
    by (simp add: toggleMode_def toggleMode_closure_def initial_def)
  have r: "\<not> recording ?s"
    by (simp add: toggleMode_def toggleMode_closure_def initial_def)
  from shutter_toggles_recording [OF h, of "Resolved None" ?ps]
  have a: "recording (run (map Shutter ?ps) ?s)
      = (if even (length ?ps) then recording ?s else \<not> recording ?s)"
    and b: "trace (map Shutter ?ps) ?s
      = map (\<lambda>i. if (if even i then recording ?s else \<not> recording ?s)
                  then StopRecording else RecordAsync) [0..<length ?ps]"
    by blast+
  have e: "(if even (length ?ps) then recording ?s else \<not> recording ?s) = True"
    using r by simp
  have t: "map (\<lambda>i. if (if even i then recording ?s else \<not> recording ?s)
                  then StopRecording else RecordAsync) [0..<length ?ps]
      = [RecordAsync, StopRecording, RecordAsync]"
    using r by (simp add: upt_rec)
  from a e have "recording (run (map Shutter ?ps) ?s)"
    by (simp only:)
  moreover from b t have "trace (map Shutter ?ps) ?s = [RecordAsync, StopRecording, RecordAsync]"
    by (simp only:)
  ultimately show ?thesis using h by blast
qed

subsection \<open>After mounting\<close>

text \<open>
  C9. The state cells start with scanning off; the mount effect, which no user action
  triggers, turns scanning on. The view rendered then is the camera view, with the
  decode handler bound and the shutter button withheld.
\<close>

theorem scanning_on_after_mount:
  "\<not> isBarcodeScanning initial
   \<and> isBarcodeScanning (mountEffect initial)
   \<and> App_render (Some True) (mountEffect initial) = CameraView
   \<and> onBarcodeScanned (renderCamera (mountEffect initial))
   \<and> \<not> shutter (renderCamera (mountEffect initial))"
  by (simp add: initial_def mountEffect_def App_render_def renderCamera_def)

end
